theory Spec2Isabelle
  imports Complex_Main "HOL-Library.Sublist" "HOL-Library.Char_ord"
begin

section \<open>Strings\<close>

text \<open>
  The scanner works on JavaScript strings. They are modelled as \<open>string\<close> (a list of
  8-bit characters); \<open>length\<close> is the source's \<open>.length\<close>. \<open>toLowerCase\<close> maps
  the letters \<open>A\<close> .. \<open>Z\<close> to \<open>a\<close> .. \<open>z\<close> and leaves every other character alone,
  which is what the source's \<open>toLowerCase()\<close> does on such text. All the terms the
  scanner searches for are lower-case ASCII words.
\<close>

definition toLowerCase_char :: "char \<Rightarrow> char" where
  "toLowerCase_char c =
     (if CHR ''A'' \<le> c \<and> c \<le> CHR ''Z'' then char_of (of_char c + (32::nat)) else c)"

definition toLowerCase :: "string \<Rightarrow> string" where
  "toLowerCase s = map toLowerCase_char s"

text \<open>\<open>s.includes(t)\<close>: \<open>t\<close> occurs in \<open>s\<close> as a contiguous run of characters.\<close>

fun includes_str :: "string \<Rightarrow> string \<Rightarrow> bool" where
  "includes_str [] t = (t = [])"
| "includes_str (c # cs) t = (prefix t (c # cs) \<or> includes_str cs t)"

section \<open>The scoring engine (auto-scanner.js)\<close>

text \<open>The fields of a repository summary of the search API that the scanner reads.\<close>

record repo =
  repo_id :: int
  repo_name :: string
  repo_full_name :: string
  repo_description :: "string option"
  repo_language :: "string option"
  stargazers_count :: int
  repo_topics :: "string list option"

record analysis =
  category :: string
  features :: "string list"
  has_documentation :: bool
  documentation_quality :: string
  complexity :: string
  production_ready :: bool

definition assessDocQuality :: "string \<Rightarrow> string" where
  "assessDocQuality readme =
     (let len = length readme;
          hasInstall = includes_str (toLowerCase readme) ''install'';
          hasUsage = (includes_str (toLowerCase readme) ''usage''
                      \<or> includes_str (toLowerCase readme) ''example'')
      in if len > 3000 \<and> hasInstall \<and> hasUsage then ''excellent''
         else if len > 1500 \<and> (hasInstall \<or> hasUsage) then ''good''
         else if len > 500 then ''basic''
         else ''poor'')"

definition assessComplexity :: "string \<Rightarrow> string" where
  "assessComplexity readme =
     (let len = length readme
      in if len > 5000 then ''high''
         else if len > 2000 then ''medium''
         else ''low'')"

definition detect_category :: "string \<Rightarrow> string" where
  "detect_category readmeLower =
     (if includes_str readmeLower ''auth'' \<or> includes_str readmeLower ''authentication''
        then ''authentication''
      else if includes_str readmeLower ''api'' \<or> includes_str readmeLower ''rest''
        then ''api''
      else if includes_str readmeLower ''database'' \<or> includes_str readmeLower ''orm''
        then ''database''
      else if includes_str readmeLower ''ui'' \<or> includes_str readmeLower ''component''
        then ''ui''
      else if includes_str readmeLower ''framework''
        then ''framework''
      else if includes_str readmeLower ''cli'' \<or> includes_str readmeLower ''command''
        then ''cli''
      else if includes_str readmeLower ''testing'' \<or> includes_str readmeLower ''test''
        then ''testing''
      else ''general'')"

definition detect_features :: "string \<Rightarrow> string list" where
  "detect_features readmeLower =
     (if includes_str readmeLower ''typescript'' then [''typescript''] else [])
     @ (if includes_str readmeLower ''async'' then [''async''] else [])
     @ (if includes_str readmeLower ''security'' then [''security''] else [])
     @ (if includes_str readmeLower ''performance'' then [''performance''] else [])"

text \<open>
  \<open>analyzeRepo(repo, readme)\<close>. The \<open>if\<close> / \<open>else if\<close> chain that sets
  \<open>category\<close> is \<open>detect_category\<close> and the four pushes onto \<open>features\<close> are
  \<open>detect_features\<close>, both above. The source also lower-cases the description, and
  never reads the result.
\<close>

definition analyzeRepo :: "repo \<Rightarrow> string \<Rightarrow> analysis" where
  "analyzeRepo repo readme =
     (let readmeLower = toLowerCase readme
      in \<lparr> category = detect_category readmeLower,
           features = detect_features readmeLower,
           has_documentation = (length readme > 500),
           documentation_quality = assessDocQuality readme,
           complexity = assessComplexity readme,
           production_ready =
             (includes_str readmeLower ''production'' \<or> stargazers_count repo > 1000) \<rparr>)"

text \<open>
  \<open>calculateUtilityScore(repo, readme, analysis)\<close>. The score is a JavaScript number; it
  is modelled in exact arithmetic over the reals, so \<open>0.2\<close> is one fifth. The two
  \<open>if\<close> / \<open>else if\<close> chains of the body are \<open>stars_bonus\<close> and
  \<open>documentation_bonus\<close>.
\<close>

definition stars_bonus :: "repo \<Rightarrow> real" where
  "stars_bonus repo =
     (if stargazers_count repo > 10000 then 2
      else if stargazers_count repo > 1000 then 1
      else if stargazers_count repo > 100 then 0.5
      else 0)"

definition documentation_bonus :: "analysis \<Rightarrow> real" where
  "documentation_bonus a =
     (if documentation_quality a = ''excellent'' then 1.5
      else if documentation_quality a = ''good'' then 1
      else if documentation_quality a = ''basic'' then 0.5
      else 0)"

definition calculateUtilityScore :: "repo \<Rightarrow> string \<Rightarrow> analysis \<Rightarrow> real" where
  "calculateUtilityScore repo readme a =
     (let score = 5.0;
          score = score + stars_bonus repo;
          score = score + documentation_bonus a;
          score = score + real (length (features a)) * 0.2;
          score = (if production_ready a then score + 1 else score)
      in min score 10)"

section \<open>The category rule as the specification words it\<close>

text \<open>
  The specification describes the category as the first match in a fixed priority list
  of term groups, with \<open>general\<close> as the fallback. This definition follows those words
  (it is not taken from the source) and is compared with \<open>detect_category\<close> below.
\<close>

definition category_rules :: "(string list \<times> string) list" where
  "category_rules =
     [([''auth'', ''authentication''], ''authentication''),
      ([''api'', ''rest''], ''api''),
      ([''database'', ''orm''], ''database''),
      ([''ui'', ''component''], ''ui''),
      ([''framework''], ''framework''),
      ([''cli'', ''command''], ''cli''),
      ([''testing'', ''test''], ''testing'')]"

fun first_match :: "(string list \<times> string) list \<Rightarrow> string \<Rightarrow> string" where
  "first_match [] text = ''general''"
| "first_match ((terms, cat) # rules) text =
     (if list_ex (includes_str text) terms then cat else first_match rules text)"

section \<open>The project table (BackendService)\<close>

text \<open>
  The object handed to \<open>saveProject\<close>. The three columns declared \<open>NOT NULL\<close> can be
  handed a null by a caller, so they are optional here; \<open>language\<close> is nullable in the
  table and in the search API.
\<close>

record project_data =
  pd_github_id :: "int option"
  pd_name :: "string option"
  pd_full_name :: "string option"
  pd_description :: string
  pd_language :: "string option"
  pd_stars :: int
  pd_topics :: "string list"
  pd_readme_content :: string
  pd_ai_analysis :: analysis
  pd_utility_score :: real
  pd_category :: string

text \<open>
  A row of the table \<open>projects\<close>. The columns \<open>topics\<close> and \<open>ai_analysis\<close> hold the
  \<open>JSON.stringify\<close> text of the value; the row keeps the value that text denotes
  (\<open>getProjects\<close> parses it back). Timestamps are readings of the store's clock.
\<close>

record project_row =
  row_id :: nat
  row_github_id :: int
  row_name :: string
  row_full_name :: string
  row_description :: string
  row_language :: "string option"
  row_stars :: int
  row_topics :: "string list"
  row_readme_content :: string
  row_ai_analysis :: analysis
  row_utility_score :: real
  row_category :: string
  row_created_at :: int
  row_scanned_at :: int

text \<open>The table with the counter behind \<open>INTEGER PRIMARY KEY AUTOINCREMENT\<close>.\<close>

record projects_db =
  rows :: "project_row list"
  last_id :: nat

datatype db_error = NotNull string

text \<open>The row a fresh \<open>INSERT\<close> creates: both timestamps default to the current time.\<close>

definition inserted_row ::
  "nat \<Rightarrow> int \<Rightarrow> int \<Rightarrow> string \<Rightarrow> string \<Rightarrow> project_data \<Rightarrow> project_row" where
  "inserted_row new_id now gid nm fnm pd =
     \<lparr> row_id = new_id,
       row_github_id = gid,
       row_name = nm,
       row_full_name = fnm,
       row_description = pd_description pd,
       row_language = pd_language pd,
       row_stars = pd_stars pd,
       row_topics = pd_topics pd,
       row_readme_content = pd_readme_content pd,
       row_ai_analysis = pd_ai_analysis pd,
       row_utility_score = pd_utility_score pd,
       row_category = pd_category pd,
       row_created_at = now,
       row_scanned_at = now \<rparr>"

text \<open>\<open>ON CONFLICT(github_id) DO UPDATE SET\<close> with its five assignments.\<close>

definition conflict_update :: "int \<Rightarrow> project_data \<Rightarrow> project_row \<Rightarrow> project_row" where
  "conflict_update now excluded r =
     r\<lparr> row_stars := pd_stars excluded,
        row_readme_content := pd_readme_content excluded,
        row_ai_analysis := pd_ai_analysis excluded,
        row_utility_score := pd_utility_score excluded,
        row_scanned_at := now \<rparr>"

text \<open>
  The statement \<open>saveProject\<close> executes, at store time \<open>now\<close>. A null in a \<open>NOT NULL\<close>
  column is an error; a row with the same \<open>github_id\<close> is updated in place; otherwise a
  row is appended under the next identifier.
\<close>

definition execute_upsert :: "int \<Rightarrow> project_data \<Rightarrow> projects_db \<Rightarrow> db_error + projects_db" where
  "execute_upsert now pd db =
     (case pd_github_id pd of
        None \<Rightarrow> Inl (NotNull ''github_id'')
      | Some gid \<Rightarrow>
     (case pd_name pd of
        None \<Rightarrow> Inl (NotNull ''name'')
      | Some nm \<Rightarrow>
     (case pd_full_name pd of
        None \<Rightarrow> Inl (NotNull ''full_name'')
      | Some fnm \<Rightarrow>
          if list_ex (\<lambda>r. row_github_id r = gid) (rows db)
          then Inr (db\<lparr> rows :=
                  map (\<lambda>r. if row_github_id r = gid then conflict_update now pd r else r)
                    (rows db) \<rparr>)
          else Inr (db\<lparr> rows := rows db @ [inserted_row (last_id db + 1) now gid nm fnm pd],
                         last_id := last_id db + 1 \<rparr>))))"

datatype save_result = Success | Failure db_error

text \<open>
  \<open>saveProject(projectData)\<close>: the \<open>try\<close> returns success, the \<open>catch\<close> returns the
  failure and leaves the table as it was. The defaults \<open>topics || []\<close>,
  \<open>ai_analysis || {}\<close> and \<open>utility_score || 0\<close> return their left operand on the
  values of \<open>project_data\<close>.
\<close>

definition saveProject :: "int \<Rightarrow> project_data \<Rightarrow> projects_db \<Rightarrow> save_result \<times> projects_db" where
  "saveProject now projectData db =
     (case execute_upsert now projectData db of
        Inr db' \<Rightarrow> (Success, db')
      | Inl e \<Rightarrow> (Failure e, db))"

text \<open>
  The \<open>WHERE\<close> clause \<open>getProjects(filters)\<close> builds. A filter that is absent or the
  empty string adds no condition. \<open>LIKE\<close> compares letters without case; \<open>%\<close> stands
  for any run of characters and \<open>_\<close> for any one character.
\<close>

fun sql_like :: "string \<Rightarrow> string \<Rightarrow> bool" where
  "sql_like [] t = (t = [])"
| "sql_like (p # ps) [] = (p = CHR ''%'' \<and> sql_like ps [])"
| "sql_like (p # ps) (c # cs) =
     (if p = CHR ''%'' then sql_like ps (c # cs) \<or> sql_like (p # ps) cs
      else (p = CHR ''_'' \<or> toLowerCase_char p = toLowerCase_char c) \<and> sql_like ps cs)"

record filters =
  f_language :: "string option"
  f_category :: "string option"
  f_search :: "string option"

definition getProjects_where :: "filters \<Rightarrow> project_row \<Rightarrow> bool" where
  "getProjects_where f r =
     ((case f_language f of
         None \<Rightarrow> True
       | Some l \<Rightarrow> l = [] \<or> row_language r = Some l)
      \<and> (case f_category f of
         None \<Rightarrow> True
       | Some c \<Rightarrow> c = [] \<or> row_category r = c)
      \<and> (case f_search f of
         None \<Rightarrow> True
       | Some s \<Rightarrow> s = []
           \<or> sql_like (''%'' @ s @ ''%'') (row_name r)
           \<or> sql_like (''%'' @ s @ ''%'') (row_description r)))"

text \<open>The rows a query selects, before \<open>ORDER BY utility_score DESC\<close> and \<open>LIMIT\<close>.\<close>

definition getProjects_selected :: "filters \<Rightarrow> projects_db \<Rightarrow> project_row list" where
  "getProjects_selected f db = filter (getProjects_where f) (rows db)"

section \<open>The scanner (AutoScanner)\<close>

text \<open>
  What the scanner does to the outside is recorded as a list of events, oldest first:
  the search requests with their language and page, the documentation requests, the
  pauses with the number of milliseconds handed to \<open>sleep\<close> (\<open>None\<close> is \<open>NaN\<close>),
  the errors written with \<open>console.error\<close>, and the closing line of a language scan
  with the count it reports.
\<close>

datatype event =
    SearchRequest string nat
  | ReadmeRequest string
  | Sleep "int option"
  | ErrorLog string
  | LanguageDone string nat

text \<open>
  The fields of the scanner object that the scan reads and writes, the project table of
  its backend, and the event list.
\<close>

record scanner =
  isScanning :: bool
  lastScanTime :: "int option"
  totalScanned :: nat
  backend :: projects_db
  events :: "event list"

definition emit :: "event \<Rightarrow> scanner \<Rightarrow> scanner" where
  "emit e s = s\<lparr> events := events s @ [e] \<rparr>"

text \<open>
  The outside world is a script. An entry of a result page carries the repository
  summary together with what the outside answers while this entry is processed: the
  text \<open>fetchReadme\<close> resolves to (\<open>None\<close> when the request fails, the status is not
  ok or decoding throws) and the reading of the store's clock for the upsert.
\<close>

record item =
  item_repo :: repo
  item_readme :: "string option"
  item_clock :: int

text \<open>
  A response to a search request: the status, the header \<open>x-ratelimit-reset\<close>, the
  reading of \<open>Date.now()\<close> while the response is handled, and \<open>data.items\<close> of the
  body (\<open>None\<close> when the body has none). A request or the decoding of its body can
  also reject with a message.
\<close>

record response =
  status :: nat
  x_ratelimit_reset :: "string option"
  date_now :: int
  items :: "item list option"

datatype fetch_result = Rejected string | Resolved response

type_synonym world = "fetch_result list"

definition ok :: "response \<Rightarrow> bool" where
  "ok r = (200 \<le> status r \<and> status r \<le> 299)"

text \<open>
  \<open>parseInt(string)\<close> without a radix: leading white space is skipped, a sign is read,
  the prefix \<open>0x\<close> selects base sixteen, and the longest run of digits is the value;
  no digit at all gives \<open>NaN\<close> (\<open>None\<close>).
\<close>

definition is_space :: "char \<Rightarrow> bool" where
  "is_space c = (c \<in> set [CHR '' '', CHR 0x09, CHR 0x0A, CHR 0x0B, CHR 0x0C, CHR 0x0D])"

definition digit_value :: "char \<Rightarrow> int option" where
  "digit_value c =
     (if CHR ''0'' \<le> c \<and> c \<le> CHR ''9'' then Some (of_char c - 48)
      else if CHR ''a'' \<le> c \<and> c \<le> CHR ''z'' then Some (of_char c - 87)
      else if CHR ''A'' \<le> c \<and> c \<le> CHR ''Z'' then Some (of_char c - 55)
      else None)"

definition is_digit :: "int \<Rightarrow> char \<Rightarrow> bool" where
  "is_digit radix c = (case digit_value c of None \<Rightarrow> False | Some d \<Rightarrow> d < radix)"

definition digits_value :: "int \<Rightarrow> string \<Rightarrow> int" where
  "digits_value radix ds =
     foldl (\<lambda>acc c. acc * radix + (case digit_value c of None \<Rightarrow> 0 | Some d \<Rightarrow> d)) 0 ds"

definition parseInt :: "string \<Rightarrow> int option" where
  "parseInt s =
     (let s1 = dropWhile is_space s;
          negative = prefix ''-'' s1;
          s2 = (if prefix ''-'' s1 \<or> prefix ''+'' s1 then drop 1 s1 else s1);
          hex = (prefix ''0x'' s2 \<or> prefix ''0X'' s2);
          radix = (if hex then 16 else 10);
          s3 = (if hex then drop 2 s2 else s2);
          ds = takeWhile (is_digit radix) s3
      in if ds = [] then None
         else if negative then Some (- digits_value radix ds)
         else Some (digits_value radix ds))"

text \<open>
  The wait after a 403:
  \<open>resetTime ? (parseInt(resetTime) * 1000 - Date.now()) : 60000\<close>.
  A header that is absent or empty is falsy.
\<close>

definition waitTime :: "string option \<Rightarrow> int \<Rightarrow> int option" where
  "waitTime resetTime now =
     (case resetTime of
        None \<Rightarrow> Some 60000
      | Some h \<Rightarrow>
          if h = [] then Some 60000
          else map_option (\<lambda>r. r * 1000 - now) (parseInt h))"

definition sleep :: "int option \<Rightarrow> scanner \<Rightarrow> scanner" where
  "sleep ms s = emit (Sleep ms) s"

text \<open>
  \<open>processRepo(repo)\<close>: fetch the documentation; an absent or empty text ends the
  call; otherwise analyse, score and save. The result of \<open>saveProject\<close> is dropped; the
  error \<open>saveProject\<close> writes to the console is recorded here.
\<close>

definition error_message :: "db_error \<Rightarrow> string" where
  "error_message e = (case e of NotNull col \<Rightarrow> ''NOT NULL constraint failed: projects.'' @ col)"

definition projectData_of :: "repo \<Rightarrow> string \<Rightarrow> project_data" where
  "projectData_of repo readme =
     (let analysis = analyzeRepo repo readme
      in \<lparr> pd_github_id = Some (repo_id repo),
           pd_name = Some (repo_name repo),
           pd_full_name = Some (repo_full_name repo),
           pd_description =
             (case repo_description repo of None \<Rightarrow> [] | Some d \<Rightarrow> d),
           pd_language = repo_language repo,
           pd_stars = stargazers_count repo,
           pd_topics = (case repo_topics repo of None \<Rightarrow> [] | Some ts \<Rightarrow> ts),
           pd_readme_content = take 10000 readme,
           pd_ai_analysis = analysis,
           pd_utility_score = calculateUtilityScore repo readme analysis,
           pd_category = category analysis \<rparr>)"

definition processRepo :: "item \<Rightarrow> scanner \<Rightarrow> scanner" where
  "processRepo it s =
     (let repo = item_repo it;
          s1 = emit (ReadmeRequest (repo_full_name repo)) s
      in case item_readme it of
           None \<Rightarrow> s1
         | Some readme \<Rightarrow>
             if readme = [] then s1
             else (case saveProject (item_clock it) (projectData_of repo readme) (backend s1) of
                     (Success, db') \<Rightarrow> s1\<lparr> backend := db' \<rparr>
                   | (Failure e, db') \<Rightarrow> emit (ErrorLog (error_message e)) (s1\<lparr> backend := db' \<rparr>)))"

text \<open>
  The \<open>for\<close> loop of \<open>scanLanguage\<close> over the entries of one page. It returns the local
  \<open>scannedCount\<close> with the scanner.
\<close>

fun processItems :: "item list \<Rightarrow> nat \<Rightarrow> nat \<Rightarrow> scanner \<Rightarrow> nat \<times> scanner" where
  "processItems [] maxRepos scannedCount s = (scannedCount, s)"
| "processItems (it # its) maxRepos scannedCount s =
     (if scannedCount \<ge> maxRepos then (scannedCount, s)
      else
        let s1 = processRepo it s;
            s2 = s1\<lparr> totalScanned := totalScanned s1 + 1 \<rparr>;
            s3 = sleep (Some 500) s2
        in processItems its maxRepos (scannedCount + 1) s3)"

text \<open>
  The \<open>while\<close> loop of \<open>scanLanguage\<close>. Every turn sends one search request and takes
  the next answer of the script; a script that ends while the loop still asks leaves
  the call waiting, which is the result \<open>None\<close>. The loop returns the rest of the
  script, the local \<open>scannedCount\<close> and the scanner.
\<close>

fun scanLoop ::
  "string \<Rightarrow> nat \<Rightarrow> world \<Rightarrow> nat \<Rightarrow> nat \<Rightarrow> scanner \<Rightarrow> (world \<times> nat \<times> scanner) option" where
  "scanLoop language maxRepos [] page scannedCount s =
     (if scannedCount < maxRepos then None else Some ([], scannedCount, s))"
| "scanLoop language maxRepos (r # w) page scannedCount s =
     (if scannedCount < maxRepos then
        (let s1 = emit (SearchRequest language page) s
         in case r of
              Rejected msg \<Rightarrow> Some (w, scannedCount, emit (ErrorLog msg) s1)
            | Resolved response \<Rightarrow>
                if \<not> ok response then
                  (let s2 = emit (ErrorLog ''GitHub API error'') s1
                   in if status response = 403 then
                        scanLoop language maxRepos w page scannedCount
                          (sleep (waitTime (x_ratelimit_reset response) (date_now response)) s2)
                      else Some (w, scannedCount, s2))
                else
                  (case items response of
                     None \<Rightarrow> Some (w, scannedCount, s1)
                   | Some its \<Rightarrow>
                       if its = [] then Some (w, scannedCount, s1)
                       else
                         (case processItems its maxRepos scannedCount s1 of
                            (scannedCount', s2) \<Rightarrow>
                              scanLoop language maxRepos w (page + 1) scannedCount' s2)))
      else Some (r # w, scannedCount, s))"

text \<open>
  \<open>scanLanguage(language, maxRepos)\<close>. The body has no \<open>return\<close> statement: the value
  the call resolves to is \<open>undefined\<close>, written \<open>None\<close> in the first component.
\<close>

definition scanLanguage ::
  "string \<Rightarrow> nat \<Rightarrow> world \<Rightarrow> scanner \<Rightarrow> (nat option \<times> world \<times> scanner) option" where
  "scanLanguage language maxRepos w s =
     (case scanLoop language maxRepos w 1 0 s of
        None \<Rightarrow> None
      | Some (w', scannedCount, s') \<Rightarrow>
          Some (None, w', emit (LanguageDone language scannedCount) s'))"

definition SCAN_LANGUAGES :: "string list" where
  "SCAN_LANGUAGES = [''JavaScript'', ''Python'', ''Java'', ''TypeScript'', ''Go'']"

definition REPOS_PER_LANGUAGE :: nat where
  "REPOS_PER_LANGUAGE = 600"

text \<open>
  \<open>runScan\<close> awaits \<open>this.scanLanguage\<close> inside \<open>try\<close> / \<open>catch\<close> / \<open>finally\<close>. An
  awaited call either returns or throws, so the language scan is a parameter here and
  both outcomes are branches; \<open>runScan\<close> below fixes it to \<open>scanLanguage\<close>.
\<close>

datatype 'a completion = Returns 'a | Throws string

type_synonym language_scan =
  "string \<Rightarrow> nat \<Rightarrow> world \<Rightarrow> scanner \<Rightarrow> (nat option completion \<times> world \<times> scanner) option"

fun scanLanguages ::
  "language_scan \<Rightarrow> string list \<Rightarrow> world \<Rightarrow> scanner \<Rightarrow> (unit completion \<times> world \<times> scanner) option" where
  "scanLanguages scan [] w s = Some (Returns (), w, s)"
| "scanLanguages scan (language # languages) w s =
     (case scan language REPOS_PER_LANGUAGE w s of
        None \<Rightarrow> None
      | Some (Throws e, w', s') \<Rightarrow> Some (Throws e, w', s')
      | Some (Returns v, w', s') \<Rightarrow> scanLanguages scan languages w' (sleep (Some 5000) s'))"

text \<open>
  \<open>runScan()\<close>; \<open>finished\<close> is the reading of the clock for \<open>lastScanTime\<close>. The call
  returns the rest of the script and the scanner, or \<open>None\<close> while it is still waiting.
\<close>

definition runScan_with :: "language_scan \<Rightarrow> int \<Rightarrow> world \<Rightarrow> scanner \<Rightarrow> (world \<times> scanner) option" where
  "runScan_with scan finished w s =
     (if isScanning s then Some (w, s)
      else
        (case scanLanguages scan SCAN_LANGUAGES w (s\<lparr> isScanning := True \<rparr>) of
           None \<Rightarrow> None
         | Some (Returns u, w', s') \<Rightarrow>
             Some (w', s'\<lparr> lastScanTime := Some finished, isScanning := False \<rparr>)
         | Some (Throws e, w', s') \<Rightarrow>
             Some (w', (emit (ErrorLog e) s')\<lparr> isScanning := False \<rparr>)))"

definition scanLanguage_call :: language_scan where
  "scanLanguage_call language maxRepos w s =
     map_option (\<lambda>(v, w', s'). (Returns v, w', s')) (scanLanguage language maxRepos w s)"

definition runScan :: "int \<Rightarrow> world \<Rightarrow> scanner \<Rightarrow> (world \<times> scanner) option" where
  "runScan finished w s = runScan_with scanLanguage_call finished w s"

section \<open>Notions used in the statements\<close>


definition rows_of :: "int \<Rightarrow> projects_db \<Rightarrow> project_row list" where
  "rows_of gid db = filter (\<lambda>r. row_github_id r = gid) (rows db)"

text \<open>A search answer that makes the loop wait and ask again.\<close>

definition is_throttle :: "fetch_result \<Rightarrow> bool" where
  "is_throttle r = (case r of Rejected msg \<Rightarrow> False | Resolved response \<Rightarrow> status response = 403)"

text \<open>
  The number of enrichment attempts in an event list (every call of \<open>processRepo\<close>
  starts with one documentation request), and the sum of the counts the closing lines
  of the language scans report.
\<close>

fun attempts :: "event list \<Rightarrow> nat" where
  "attempts [] = 0"
| "attempts (ReadmeRequest n # es) = Suc (attempts es)"
| "attempts (e # es) = attempts es"

fun reported :: "event list \<Rightarrow> nat" where
  "reported [] = 0"
| "reported (LanguageDone l n # es) = n + reported es"
| "reported (e # es) = reported es"

text \<open>
  \<open>scan_effect s s' n\<close>: the scanner \<open>s'\<close> comes from \<open>s\<close> by \<open>n\<close> enrichment
  attempts. The flag and the time of the last scan are as before, the lifetime counter
  and the number of documentation requests are both up by \<open>n\<close>, no language scan was
  closed, and the events of \<open>s\<close> are the first events of \<open>s'\<close>.
\<close>

definition scan_effect :: "scanner \<Rightarrow> scanner \<Rightarrow> nat \<Rightarrow> bool" where
  "scan_effect s s' n =
     (isScanning s' = isScanning s
      \<and> lastScanTime s' = lastScanTime s
      \<and> totalScanned s' = totalScanned s + n
      \<and> attempts (events s') = attempts (events s) + n
      \<and> reported (events s') = reported (events s)
      \<and> prefix (events s) (events s'))"

text \<open>
  \<open>run_effect s s'\<close>: the scanner \<open>s'\<close> comes from \<open>s\<close> by whole language scans and
  pauses. The lifetime counter has grown by the sum of the counts the closed language
  scans reported, which is also the number of documentation requests made.
\<close>

definition run_effect :: "scanner \<Rightarrow> scanner \<Rightarrow> bool" where
  "run_effect s s' =
     (isScanning s' = isScanning s
      \<and> lastScanTime s' = lastScanTime s
      \<and> totalScanned s' + reported (events s) = totalScanned s + reported (events s')
      \<and> totalScanned s' + attempts (events s) = totalScanned s + attempts (events s')
      \<and> prefix (events s) (events s'))"

text \<open>The number of answers in a script that do not send the loop back to wait.\<close>

definition answers :: "world \<Rightarrow> nat" where
  "answers w = length (filter (\<lambda>r. \<not> is_throttle r) w)"

section \<open>Sample inputs\<close>

definition sample_repo :: repo where
  "sample_repo =
     \<lparr> repo_id = 7, repo_name = ''kit'', repo_full_name = ''acme/kit'',
       repo_description = None, repo_language = Some ''Go'',
       stargazers_count = 1500, repo_topics = None \<rparr>"

definition empty_db :: projects_db where
  "empty_db = \<lparr> rows = [], last_id = 0 \<rparr>"

definition idle_scanner :: scanner where
  "idle_scanner =
     \<lparr> isScanning = False, lastScanTime = None, totalScanned = 0,
       backend = empty_db, events = [] \<rparr>"

definition page_with :: "item list \<Rightarrow> fetch_result" where
  "page_with its =
     Resolved \<lparr> status = 200, x_ratelimit_reset = None, date_now = 0, items = Some its \<rparr>"

definition throttled :: "string option \<Rightarrow> int \<Rightarrow> fetch_result" where
  "throttled reset now =
     Resolved \<lparr> status = 403, x_ratelimit_reset = reset, date_now = now, items = None \<rparr>"

definition sample_item :: "string option \<Rightarrow> item" where
  "sample_item readme = \<lparr> item_repo = sample_repo, item_readme = readme, item_clock = 100 \<rparr>"

text \<open>
  A repository scanned twice: first with a document about a REST client, then, with
  more stars, with a document about OAuth.
\<close>

definition first_scan :: project_data where
  "first_scan = projectData_of sample_repo ''REST API client''"

definition second_scan :: project_data where
  "second_scan = projectData_of (sample_repo\<lparr> stargazers_count := 2000 \<rparr>) ''OAuth REST API''"

definition db_after_first :: projects_db where
  "db_after_first = snd (saveProject 100 first_scan empty_db)"

definition db_after_second :: projects_db where
  "db_after_second = snd (saveProject 200 second_scan db_after_first)"

section \<open>Properties of the scoring engine\<close>

lemma includes_str_sublist: "includes_str s t \<longleftrightarrow> sublist t s"
  by (induction s) (simp_all add: sublist_Cons_right)

lemma includes_str_infix: "includes_str (p @ t @ q) t"
  by (simp add: includes_str_sublist)

lemma stars_bonus_nonneg: "0 \<le> stars_bonus repo"
  by (simp add: stars_bonus_def)

lemma documentation_bonus_nonneg: "0 \<le> documentation_bonus a"
  by (simp add: documentation_bonus_def)

text \<open>
  Claim C1. Whatever the repository metadata and the document text, the utility score
  lies between 5 and 10; the same holds for any analysis handed to the score function.
\<close>

theorem utility_score_bounds:
  "5 \<le> calculateUtilityScore repo readme (analyzeRepo repo readme)
   \<and> calculateUtilityScore repo readme (analyzeRepo repo readme) \<le> 10
   \<and> 5 \<le> calculateUtilityScore repo readme a
   \<and> calculateUtilityScore repo readme a \<le> 10"
proof -
  have low: "5 \<le> calculateUtilityScore repo readme b" for b
    using stars_bonus_nonneg [of repo] documentation_bonus_nonneg [of b]
    by (simp add: calculateUtilityScore_def Let_def)
  have high: "calculateUtilityScore repo readme b \<le> 10" for b
    by (simp add: calculateUtilityScore_def Let_def)
  show ?thesis
    using low high by blast
qed

lemma toLowerCase_append: "toLowerCase (a @ b) = toLowerCase a @ toLowerCase b"
  by (simp add: toLowerCase_def)

lemma toLowerCase_replicate: "toLowerCase (replicate n c) = replicate n (toLowerCase_char c)"
  by (simp add: toLowerCase_def)

text \<open>
  Claim C6. The category \<open>analyzeRepo\<close> assigns is the first match of the lower-cased
  document text in the priority list authentication, api, database, ui, framework, cli,
  testing, with \<open>general\<close> as the fallback; a document with both an authentication
  term and an api term is classified \<open>authentication\<close> and not \<open>api\<close>.
\<close>

theorem category_priority:
  "category (analyzeRepo repo readme) = first_match category_rules (toLowerCase readme)
   \<and> ((includes_str (toLowerCase readme) ''auth''
          \<or> includes_str (toLowerCase readme) ''authentication'')
        \<and> (includes_str (toLowerCase readme) ''api''
          \<or> includes_str (toLowerCase readme) ''rest'')
       \<longrightarrow> category (analyzeRepo repo readme) = ''authentication''
           \<and> category (analyzeRepo repo readme) \<noteq> ''api'')"
  by (simp add: analyzeRepo_def detect_category_def category_rules_def Let_def)

theorem category_priority_witness:
  "(includes_str (toLowerCase ''OAuth REST API'') ''auth''
      \<or> includes_str (toLowerCase ''OAuth REST API'') ''authentication'')
   \<and> (includes_str (toLowerCase ''OAuth REST API'') ''api''
      \<or> includes_str (toLowerCase ''OAuth REST API'') ''rest'')
   \<and> category (analyzeRepo sample_repo ''OAuth REST API'') = ''authentication''
   \<and> first_match category_rules (toLowerCase ''OAuth REST API'') = ''authentication''"
proof -
  have low: "toLowerCase ''OAuth REST API'' = ''oauth rest api''"
    by code_simp
  have a: "includes_str ''oauth rest api'' ''auth''" by simp
  have b: "includes_str ''oauth rest api'' ''api''" by simp
  show ?thesis
    using category_priority [of sample_repo "''OAuth REST API''"] a b
    by (auto simp add: low)
qed

text \<open>
  Claim C7. With \<open>L\<close> the length of the document and the terms looked up in its
  lower-cased text: the documentation quality is \<open>excellent\<close> exactly when
  \<open>L > 3000\<close> with an install term and a usage-or-example term, else \<open>good\<close>
  exactly when \<open>L > 1500\<close> with one of the two, else \<open>basic\<close> exactly when
  \<open>L > 500\<close>, else \<open>poor\<close>; the complexity is \<open>high\<close> above 5000, \<open>medium\<close>
  above 2000 and \<open>low\<close> otherwise; \<open>has_documentation\<close> is \<open>L > 500\<close>; and
  \<open>production_ready\<close> holds exactly when the text mentions \<open>production\<close> or the
  repository has more than 1000 stars.
\<close>

theorem analysis_tiers:
  "let L = length readme;
       text = toLowerCase readme;
       inst = includes_str text ''install'';
       use = (includes_str text ''usage'' \<or> includes_str text ''example'');
       a = analyzeRepo repo readme
   in (documentation_quality a = ''excellent'' \<longleftrightarrow> L > 3000 \<and> inst \<and> use)
    \<and> (documentation_quality a = ''good'' \<longleftrightarrow>
          \<not> (L > 3000 \<and> inst \<and> use) \<and> L > 1500 \<and> (inst \<or> use))
    \<and> (documentation_quality a = ''basic'' \<longleftrightarrow>
          \<not> (L > 3000 \<and> inst \<and> use) \<and> \<not> (L > 1500 \<and> (inst \<or> use)) \<and> L > 500)
    \<and> (documentation_quality a = ''poor'' \<longleftrightarrow>
          \<not> (L > 3000 \<and> inst \<and> use) \<and> \<not> (L > 1500 \<and> (inst \<or> use)) \<and> \<not> L > 500)
    \<and> (complexity a = ''high'' \<longleftrightarrow> L > 5000)
    \<and> (complexity a = ''medium'' \<longleftrightarrow> \<not> L > 5000 \<and> L > 2000)
    \<and> (complexity a = ''low'' \<longleftrightarrow> \<not> L > 5000 \<and> \<not> L > 2000)
    \<and> (has_documentation a \<longleftrightarrow> L > 500)
    \<and> (production_ready a \<longleftrightarrow>
          includes_str text ''production'' \<or> stargazers_count repo > 1000)"
  unfolding Let_def analyzeRepo_def assessDocQuality_def assessComplexity_def
  by simp

theorem analysis_tiers_witness:
  "documentation_quality
     (analyzeRepo sample_repo (replicate 3000 CHR ''x'' @ ''Install and Usage'')) = ''excellent''
   \<and> complexity
     (analyzeRepo sample_repo (replicate 3000 CHR ''x'' @ ''Install and Usage'')) = ''medium''
   \<and> has_documentation
     (analyzeRepo sample_repo (replicate 3000 CHR ''x'' @ ''Install and Usage''))
   \<and> production_ready
     (analyzeRepo sample_repo (replicate 3000 CHR ''x'' @ ''Install and Usage''))"
proof -
  let ?doc = "replicate 3000 CHR ''x'' @ ''Install and Usage''"
  have x: "toLowerCase_char CHR ''x'' = CHR ''x''"
    by code_simp
  have tail: "toLowerCase ''Install and Usage'' = ''install and usage''"
    by code_simp
  have low: "toLowerCase ?doc = replicate 3000 CHR ''x'' @ ''install and usage''"
    by (simp only: toLowerCase_append toLowerCase_replicate x tail)
  have inst: "includes_str (toLowerCase ?doc) ''install''"
    using includes_str_infix [of "replicate 3000 CHR ''x''" "''install''" "'' and usage''"]
    by (simp add: low)
  have use: "includes_str (toLowerCase ?doc) ''usage''"
    using includes_str_infix [of "replicate 3000 CHR ''x'' @ ''install and ''" "''usage''" "[]"]
    by (simp add: low)
  have len: "length ?doc = 3017"
    by simp
  have stars: "stargazers_count sample_repo = 1500"
    by (simp add: sample_repo_def)
  show ?thesis
    using analysis_tiers [of ?doc sample_repo] inst use
    unfolding Let_def len stars
    by simp
qed




section \<open>Properties of the project table\<close>

lemma conflict_update_keeps:
  "row_id (conflict_update t pd r) = row_id r"
  "row_github_id (conflict_update t pd r) = row_github_id r"
  "row_name (conflict_update t pd r) = row_name r"
  "row_full_name (conflict_update t pd r) = row_full_name r"
  "row_description (conflict_update t pd r) = row_description r"
  "row_language (conflict_update t pd r) = row_language r"
  "row_topics (conflict_update t pd r) = row_topics r"
  "row_category (conflict_update t pd r) = row_category r"
  "row_created_at (conflict_update t pd r) = row_created_at r"
  by (simp_all add: conflict_update_def)

lemma conflict_update_refreshes:
  "row_stars (conflict_update t pd r) = pd_stars pd"
  "row_readme_content (conflict_update t pd r) = pd_readme_content pd"
  "row_ai_analysis (conflict_update t pd r) = pd_ai_analysis pd"
  "row_utility_score (conflict_update t pd r) = pd_utility_score pd"
  "row_scanned_at (conflict_update t pd r) = t"
  by (simp_all add: conflict_update_def)

lemma inserted_row_github_id: "row_github_id (inserted_row n t g nm fnm pd) = g"
  by (simp add: inserted_row_def)

lemma saveProject_Success_cases:
  assumes "saveProject t pd db = (Success, db')" and "pd_github_id pd = Some g"
  shows "(list_ex (\<lambda>r. row_github_id r = g) (rows db)
          \<and> db' = db\<lparr> rows :=
                 map (\<lambda>r. if row_github_id r = g then conflict_update t pd r else r) (rows db) \<rparr>)
       \<or> (\<not> list_ex (\<lambda>r. row_github_id r = g) (rows db)
          \<and> (\<exists>nm fnm. db' = db\<lparr> rows := rows db @ [inserted_row (last_id db + 1) t g nm fnm pd],
                                   last_id := last_id db + 1 \<rparr>))"
  using assms
  by (auto simp add: saveProject_def execute_upsert_def split: option.splits if_splits sum.splits)









lemma projectData_of_keys:
  "pd_github_id (projectData_of repo readme) = Some (repo_id repo)"
  "pd_name (projectData_of repo readme) = Some (repo_name repo)"
  "pd_full_name (projectData_of repo readme) = Some (repo_full_name repo)"
  by (simp_all add: projectData_of_def Let_def)

lemma saveProject_succeeds:
  "pd_github_id pd = Some g \<Longrightarrow> pd_name pd = Some nm \<Longrightarrow> pd_full_name pd = Some fnm \<Longrightarrow>
     fst (saveProject t pd db) = Success"
  by (simp add: saveProject_def execute_upsert_def)

lemma saveProject_of_repo:
  "saveProject t (projectData_of repo readme) db
     = (Success, snd (saveProject t (projectData_of repo readme) db))"
  by (simp add: prod_eq_iff saveProject_succeeds [OF projectData_of_keys])


lemma getProjects_where_update:
  "getProjects_where f (conflict_update t pd r) = getProjects_where f r"
  by (simp add: getProjects_where_def conflict_update_keeps split: option.splits)

lemma categories_of_update:
  "map row_category (map (\<lambda>r. if row_github_id r = g then conflict_update t pd r else r) xs)
   = map row_category xs"
  by (induction xs) (simp_all add: conflict_update_keeps)

lemma selected_ids_of_update:
  "map row_id (filter (getProjects_where f)
      (map (\<lambda>r. if row_github_id r = g then conflict_update t pd r else r) xs))
   = map row_id (filter (getProjects_where f) xs)"
  by (induction xs) (simp_all add: conflict_update_keeps getProjects_where_update)

lemma analysis_of_update:
  "r \<in> set (filter (\<lambda>r. row_github_id r = g)
      (map (\<lambda>r. if row_github_id r = g then conflict_update t pd r else r) xs)) \<Longrightarrow>
   row_ai_analysis r = pd_ai_analysis pd"
  by (induction xs) (auto simp add: conflict_update_refreshes conflict_update_keeps split: if_splits)

text \<open>
  Claim C10. On the conflict-update path of the upsert the column \<open>category\<close> of no
  row changes, while the stored analysis of the row with the given \<open>github_id\<close> becomes
  the new one; so the rows a query of \<open>getProjects\<close> selects, by category or by any
  other filter, are the same before and after the re-scan. The column can therefore
  disagree with the category inside the stored analysis, and no later upsert repairs it.
\<close>

theorem category_column_not_refreshed:
  assumes "saveProject t pd db = (Success, db')" and "pd_github_id pd = Some g"
    and "list_ex (\<lambda>r. row_github_id r = g) (rows db)"
  shows "map row_category (rows db') = map row_category (rows db)
       \<and> (\<forall>r \<in> set (rows_of g db'). row_ai_analysis r = pd_ai_analysis pd)
       \<and> map row_id (getProjects_selected f db') = map row_id (getProjects_selected f db)"
proof -
  have db': "db' = db\<lparr> rows :=
      map (\<lambda>r. if row_github_id r = g then conflict_update t pd r else r) (rows db) \<rparr>"
    using saveProject_Success_cases [OF assms(1) assms(2)] assms(3) by blast
  have a: "map row_category (rows db') = map row_category (rows db)"
    using categories_of_update [of g t pd "rows db"] by (simp add: db')
  have eq: "rows_of g db' = filter (\<lambda>r. row_github_id r = g)
      (map (\<lambda>r. if row_github_id r = g then conflict_update t pd r else r) (rows db))"
    by (simp add: db' rows_of_def)
  have b: "\<forall>r \<in> set (rows_of g db'). row_ai_analysis r = pd_ai_analysis pd"
    unfolding eq using analysis_of_update by blast
  have c: "map row_id (getProjects_selected f db') = map row_id (getProjects_selected f db)"
    using selected_ids_of_update [of f g t pd "rows db"]
    by (simp add: db' getProjects_selected_def)
  show ?thesis
    using a b c by blast
qed



lemma lower_oauth: "toLowerCase ''OAuth REST API'' = ''oauth rest api''"
  by code_simp

lemma lower_rest: "toLowerCase ''REST API client'' = ''rest api client''"
  by code_simp

lemma category_oauth: "detect_category ''oauth rest api'' = ''authentication''"
  by (simp add: detect_category_def)

lemma category_rest: "detect_category ''rest api client'' = ''api''"
  by (simp add: detect_category_def)

lemma category_of_analysis:
  "category (analyzeRepo repo readme) = detect_category (toLowerCase readme)"
  by (simp add: analyzeRepo_def Let_def)

lemma projectData_of_analysis:
  "pd_ai_analysis (projectData_of repo readme) = analyzeRepo repo readme"
  "pd_category (projectData_of repo readme) = category (analyzeRepo repo readme)"
  "pd_stars (projectData_of repo readme) = stargazers_count repo"
  by (simp_all add: projectData_of_def Let_def)

lemma first_scan_keys:
  "pd_github_id first_scan = Some 7"
  "pd_name first_scan = Some ''kit''"
  "pd_full_name first_scan = Some ''acme/kit''"
  by (simp_all add: first_scan_def projectData_of_keys sample_repo_def)

lemma second_scan_keys:
  "pd_github_id second_scan = Some 7"
  "pd_name second_scan = Some ''kit''"
  "pd_full_name second_scan = Some ''acme/kit''"
  by (simp_all add: second_scan_def projectData_of_keys sample_repo_def)

lemma rows_after_first:
  "rows db_after_first = [inserted_row 1 100 7 ''kit'' ''acme/kit'' first_scan]"
  by (simp add: db_after_first_def saveProject_def execute_upsert_def first_scan_keys empty_db_def)

lemma rows_after_second:
  "rows db_after_second
     = [conflict_update 200 second_scan (inserted_row 1 100 7 ''kit'' ''acme/kit'' first_scan)]"
  by (simp add: db_after_second_def saveProject_def execute_upsert_def second_scan_keys
      rows_after_first inserted_row_github_id)

lemma first_scan_category: "pd_category first_scan = ''api''"
  by (simp add: first_scan_def projectData_of_analysis category_of_analysis lower_rest category_rest)

lemma second_scan_category: "category (pd_ai_analysis second_scan) = ''authentication''"
  by (simp add: second_scan_def projectData_of_analysis category_of_analysis lower_oauth
      category_oauth)

lemma inserted_row_category: "row_category (inserted_row n t g nm fnm pd) = pd_category pd"
  by (simp add: inserted_row_def)

lemma inserted_row_id: "row_id (inserted_row n t g nm fnm pd) = n"
  by (simp add: inserted_row_def)

theorem category_column_not_refreshed_witness:
  "saveProject 200 second_scan db_after_first = (Success, db_after_second)
   \<and> pd_github_id second_scan = Some 7
   \<and> list_ex (\<lambda>r. row_github_id r = 7) (rows db_after_first)
   \<and> map row_category (rows db_after_first) = [''api'']
   \<and> map row_category (rows db_after_second) = [''api'']
   \<and> map (\<lambda>r. category (row_ai_analysis r)) (rows db_after_second) = [''authentication'']
   \<and> getProjects_selected
        \<lparr> f_language = None, f_category = Some ''authentication'', f_search = None \<rparr>
        db_after_second = []
   \<and> map row_id (getProjects_selected
        \<lparr> f_language = None, f_category = Some ''api'', f_search = None \<rparr>
        db_after_second) = [1]"
proof -
  have h1: "saveProject 200 second_scan db_after_first = (Success, db_after_second)"
    unfolding db_after_second_def second_scan_def by (rule saveProject_of_repo)
  have h2: "pd_github_id second_scan = Some 7"
    by (rule second_scan_keys)
  have h3: "list_ex (\<lambda>r. row_github_id r = 7) (rows db_after_first)"
    by (simp add: rows_after_first inserted_row_github_id)
  have before: "map row_category (rows db_after_first) = [''api'']"
    by (simp add: rows_after_first inserted_row_category first_scan_category)
  have stored: "map (\<lambda>r. category (row_ai_analysis r)) (rows db_after_second) = [''authentication'']"
    by (simp add: rows_after_second conflict_update_refreshes second_scan_category)
  note frame = category_column_not_refreshed [OF h1 h2 h3]
  have after: "map row_category (rows db_after_second) = [''api'']"
    using frame before by simp
  have miss: "getProjects_selected
        \<lparr> f_language = None, f_category = Some ''authentication'', f_search = None \<rparr>
        db_after_second = []"
    using after
    by (simp add: getProjects_selected_def getProjects_where_def rows_after_second)
  have hit: "map row_id (getProjects_selected
        \<lparr> f_language = None, f_category = Some ''api'', f_search = None \<rparr>
        db_after_second) = [1]"
    using after
    by (simp add: getProjects_selected_def getProjects_where_def rows_after_second
        conflict_update_keeps inserted_row_id)
  show ?thesis
    using h1 h2 h3 before after stored miss hit by blast
qed

section \<open>Properties of the scanner\<close>

lemma attempts_append: "attempts (a @ b) = attempts a + attempts b"
  by (induction a rule: attempts.induct) simp_all

lemma reported_append: "reported (a @ b) = reported a + reported b"
  by (induction a rule: reported.induct) simp_all

lemma scan_effect_refl: "scan_effect s s 0"
  by (simp add: scan_effect_def)

lemma scan_effect_trans:
  "scan_effect s s' a \<Longrightarrow> scan_effect s' s'' b \<Longrightarrow> scan_effect s s'' (a + b)"
  by (auto simp add: scan_effect_def)

lemma scan_effect_search: "scan_effect s (emit (SearchRequest l p) s) 0"
  by (simp add: scan_effect_def emit_def attempts_append reported_append)

lemma scan_effect_error: "scan_effect s (emit (ErrorLog msg) s) 0"
  by (simp add: scan_effect_def emit_def attempts_append reported_append)

lemma scan_effect_sleep: "scan_effect s (sleep ms s) 0"
  by (simp add: scan_effect_def sleep_def emit_def attempts_append reported_append)

lemma processRepo_skip:
  "item_readme it = None \<or> item_readme it = Some [] \<Longrightarrow>
     processRepo it s = emit (ReadmeRequest (repo_full_name (item_repo it))) s"
  by (auto simp add: processRepo_def Let_def)

lemma processRepo_effect:
  "isScanning (processRepo it s) = isScanning s
   \<and> lastScanTime (processRepo it s) = lastScanTime s
   \<and> totalScanned (processRepo it s) = totalScanned s
   \<and> attempts (events (processRepo it s)) = attempts (events s) + 1
   \<and> reported (events (processRepo it s)) = reported (events s)
   \<and> prefix (events s) (events (processRepo it s))"
  by (simp add: processRepo_def Let_def emit_def attempts_append reported_append
      split: option.splits prod.splits save_result.splits)

lemma processItems_step:
  "scannedCount < maxRepos \<Longrightarrow>
     processItems (it # its) maxRepos scannedCount s
       = processItems its maxRepos (scannedCount + 1)
           (sleep (Some 500) ((processRepo it s)\<lparr> totalScanned := totalScanned (processRepo it s) + 1 \<rparr>))"
  by (simp add: Let_def)

lemma processItems_stop:
  "maxRepos \<le> scannedCount \<Longrightarrow> processItems its maxRepos scannedCount s = (scannedCount, s)"
  by (cases its) simp_all

lemma item_effect:
  "scan_effect s
     (sleep (Some 500) ((processRepo it s)\<lparr> totalScanned := totalScanned (processRepo it s) + 1 \<rparr>)) 1"
  using processRepo_effect [of it s]
  by (simp add: scan_effect_def sleep_def emit_def attempts_append reported_append)

lemma processItems_count:
  "fst (processItems its maxRepos scannedCount s)
     = (if maxRepos \<le> scannedCount then scannedCount
        else min maxRepos (scannedCount + length its))"
proof (induction its arbitrary: scannedCount s)
  case Nil
  then show ?case by simp
next
  case (Cons it its)
  show ?case
  proof (cases "scannedCount < maxRepos")
    case True
    then show ?thesis
      by (simp only: processItems_step [OF True] Cons.IH) auto
  next
    case False
    then show ?thesis by (simp add: processItems_stop)
  qed
qed

lemma processItems_effect:
  "scan_effect s (snd (processItems its maxRepos scannedCount s))
     (fst (processItems its maxRepos scannedCount s) - scannedCount)
   \<and> scannedCount \<le> fst (processItems its maxRepos scannedCount s)"
proof (induction its arbitrary: scannedCount s)
  case Nil
  then show ?case by (simp add: scan_effect_refl)
next
  case (Cons it its)
  show ?case
  proof (cases "scannedCount < maxRepos")
    case True
    let ?s1 = "sleep (Some 500)
      ((processRepo it s)\<lparr> totalScanned := totalScanned (processRepo it s) + 1 \<rparr>)"
    let ?r = "processItems its maxRepos (scannedCount + 1) ?s1"
    have step: "processItems (it # its) maxRepos scannedCount s = ?r"
      by (rule processItems_step [OF True])
    have ih: "scan_effect ?s1 (snd ?r) (fst ?r - (scannedCount + 1)) \<and> scannedCount + 1 \<le> fst ?r"
      by (rule Cons.IH)
    have le: "scannedCount + 1 \<le> fst ?r"
      using ih by blast
    then have eq: "fst ?r - scannedCount = 1 + (fst ?r - (scannedCount + 1))"
      by linarith
    have "scan_effect s (snd ?r) (fst ?r - scannedCount)"
      unfolding eq using scan_effect_trans [OF item_effect] ih by blast
    moreover from le have "scannedCount \<le> fst ?r"
      by linarith
    ultimately show ?thesis
      unfolding step by blast
  next
    case False
    then show ?thesis by (simp add: processItems_stop scan_effect_refl)
  qed
qed


lemma scanLoop_done:
  "\<not> scannedCount < maxRepos \<Longrightarrow>
     scanLoop language maxRepos w page scannedCount s = Some (w, scannedCount, s)"
  by (cases w) simp_all

lemma scanLoop_waiting:
  "scannedCount < maxRepos \<Longrightarrow> scanLoop language maxRepos [] page scannedCount s = None"
  by simp

lemma scanLoop_rejected:
  "scannedCount < maxRepos \<Longrightarrow>
     scanLoop language maxRepos (Rejected msg # w) page scannedCount s
       = Some (w, scannedCount, emit (ErrorLog msg) (emit (SearchRequest language page) s))"
  by (simp add: Let_def)

lemma scanLoop_throttled:
  "scannedCount < maxRepos \<Longrightarrow> status response = 403 \<Longrightarrow>
     scanLoop language maxRepos (Resolved response # w) page scannedCount s
       = scanLoop language maxRepos w page scannedCount
           (sleep (waitTime (x_ratelimit_reset response) (date_now response))
              (emit (ErrorLog ''GitHub API error'') (emit (SearchRequest language page) s)))"
  by (simp add: Let_def ok_def)

lemma scanLoop_failed:
  "scannedCount < maxRepos \<Longrightarrow> \<not> ok response \<Longrightarrow> status response \<noteq> 403 \<Longrightarrow>
     scanLoop language maxRepos (Resolved response # w) page scannedCount s
       = Some (w, scannedCount,
           emit (ErrorLog ''GitHub API error'') (emit (SearchRequest language page) s))"
  by (simp add: Let_def)

lemma scanLoop_exhausted:
  "scannedCount < maxRepos \<Longrightarrow> ok response \<Longrightarrow>
   items response = None \<or> items response = Some [] \<Longrightarrow>
     scanLoop language maxRepos (Resolved response # w) page scannedCount s
       = Some (w, scannedCount, emit (SearchRequest language page) s)"
  by (auto simp add: Let_def)

lemma scanLoop_page:
  "scannedCount < maxRepos \<Longrightarrow> ok response \<Longrightarrow> items response = Some its \<Longrightarrow> its \<noteq> [] \<Longrightarrow>
     scanLoop language maxRepos (Resolved response # w) page scannedCount s
       = scanLoop language maxRepos w (page + 1)
           (fst (processItems its maxRepos scannedCount (emit (SearchRequest language page) s)))
           (snd (processItems its maxRepos scannedCount (emit (SearchRequest language page) s)))"
  by (simp add: Let_def split: prod.splits)

declare processItems.simps [simp del] scanLoop.simps [simp del]

lemma scanLoop_effect:
  "scanLoop language maxRepos w page scannedCount s = Some (w', c', s') \<Longrightarrow>
     scan_effect s s' (c' - scannedCount) \<and> scannedCount \<le> c'
     \<and> (scannedCount \<le> maxRepos \<longrightarrow> c' \<le> maxRepos)"
proof (induction w arbitrary: page scannedCount s)
  case Nil
  then show ?case
    by (cases "scannedCount < maxRepos") (simp_all add: scanLoop_done scanLoop_waiting scan_effect_refl)
next
  case (Cons r w)
  let ?s1 = "emit (SearchRequest language page) s"
  have e1: "scan_effect s ?s1 0"
    by (rule scan_effect_search)
  show ?case
  proof (cases "scannedCount < maxRepos")
    case False
    with Cons.prems show ?thesis
      by (simp add: scanLoop_done scan_effect_refl)
  next
    case quota: True
    show ?thesis
    proof (cases r)
      case (Rejected msg)
      have "scan_effect s (emit (ErrorLog msg) ?s1) (0 + 0)"
        using e1 scan_effect_error by (rule scan_effect_trans)
      moreover have "scanLoop language maxRepos (Rejected msg # w) page scannedCount s
          = Some (w, scannedCount, emit (ErrorLog msg) ?s1)"
        by (rule scanLoop_rejected [OF quota])
      ultimately show ?thesis
        using Cons.prems quota Rejected by auto
    next
      case (Resolved response)
      let ?s2 = "emit (ErrorLog ''GitHub API error'') ?s1"
      have e2: "scan_effect s ?s2 (0 + 0)"
        using e1 scan_effect_error by (rule scan_effect_trans)
      show ?thesis
      proof (cases "ok response")
        case bad: False
        show ?thesis
        proof (cases "status response = 403")
          case True
          let ?s3 = "sleep (waitTime (x_ratelimit_reset response) (date_now response)) ?s2"
          have e3: "scan_effect s ?s3 (0 + 0 + 0)"
            using e2 scan_effect_sleep by (rule scan_effect_trans)
          have "scanLoop language maxRepos w page scannedCount ?s3 = Some (w', c', s')"
            using Cons.prems by (simp only: Resolved scanLoop_throttled [OF quota True])
          from Cons.IH [OF this]
          have ih: "scan_effect ?s3 s' (c' - scannedCount)" "scannedCount \<le> c'"
            "scannedCount \<le> maxRepos \<longrightarrow> c' \<le> maxRepos"
            by blast+
          have "scan_effect s s' (0 + 0 + 0 + (c' - scannedCount))"
            using e3 ih(1) by (rule scan_effect_trans)
          with ih show ?thesis by simp
        next
          case False
          have "scanLoop language maxRepos (Resolved response # w) page scannedCount s
              = Some (w, scannedCount, ?s2)"
            by (rule scanLoop_failed [OF quota bad False])
          with Cons.prems quota Resolved e2 show ?thesis
            by auto
        qed
      next
        case good: True
        show ?thesis
        proof (cases "items response = None \<or> items response = Some []")
          case True
          have "scanLoop language maxRepos (Resolved response # w) page scannedCount s
              = Some (w, scannedCount, ?s1)"
            by (rule scanLoop_exhausted [OF quota good True])
          with Cons.prems quota Resolved e1 show ?thesis
            by auto
        next
          case False
          then obtain its where its: "items response = Some its" "its \<noteq> []"
            by (cases "items response") auto
          let ?c1 = "fst (processItems its maxRepos scannedCount ?s1)"
          let ?s2 = "snd (processItems its maxRepos scannedCount ?s1)"
          have run: "scanLoop language maxRepos w (page + 1) ?c1 ?s2 = Some (w', c', s')"
            using Cons.prems by (simp only: Resolved scanLoop_page [OF quota good its])
          have pi: "scan_effect ?s1 ?s2 (?c1 - scannedCount)" "scannedCount \<le> ?c1"
            using processItems_effect [of ?s1 its maxRepos scannedCount] by blast+
          have c1: "?c1 \<le> maxRepos"
            using quota by (simp add: processItems_count)
          from Cons.IH [OF run]
          have ih: "scan_effect ?s2 s' (c' - ?c1)" "?c1 \<le> c'" "c' \<le> maxRepos"
            using c1 by blast+
          have "scan_effect s ?s2 (0 + (?c1 - scannedCount))"
            using e1 pi(1) by (rule scan_effect_trans)
          then have "scan_effect s s' (0 + (?c1 - scannedCount) + (c' - ?c1))"
            using ih(1) by (rule scan_effect_trans)
          moreover have "0 + (?c1 - scannedCount) + (c' - ?c1) = c' - scannedCount"
            using pi(2) ih(2) by linarith
          ultimately have "scan_effect s s' (c' - scannedCount)"
            by (simp only:)
          with pi(2) ih(2) ih(3) show ?thesis
            by auto
        qed
      qed
    qed
  qed
qed


lemma scanLoop_after_request:
  assumes "scannedCount < maxRepos"
    and "scanLoop language maxRepos (r # w) page scannedCount s = Some (w', c', s')"
  shows "prefix (events s @ [SearchRequest language page]) (events s')"
proof -
  let ?s1 = "emit (SearchRequest language page) s"
  have ev: "events ?s1 = events s @ [SearchRequest language page]"
    by (simp add: emit_def)
  have later: "scan_effect ?s1 t n \<Longrightarrow> prefix (events ?s1) (events t)" for t n
    by (simp add: scan_effect_def)
  have "\<exists>n. scan_effect ?s1 s' n"
  proof (cases r)
    case (Rejected msg)
    with assms show ?thesis
      using scan_effect_error [of ?s1 msg] by (auto simp add: scanLoop_rejected)
  next
    case (Resolved response)
    let ?s2 = "emit (ErrorLog ''GitHub API error'') ?s1"
    have e2: "scan_effect ?s1 ?s2 0"
      by (rule scan_effect_error)
    show ?thesis
    proof (cases "ok response")
      case bad: False
      show ?thesis
      proof (cases "status response = 403")
        case True
        let ?s3 = "sleep (waitTime (x_ratelimit_reset response) (date_now response)) ?s2"
        have "scanLoop language maxRepos w page scannedCount ?s3 = Some (w', c', s')"
          using assms(2) by (simp only: Resolved scanLoop_throttled [OF assms(1) True])
        then have "scan_effect ?s3 s' (c' - scannedCount)"
          using scanLoop_effect by blast
        moreover have "scan_effect ?s1 ?s3 (0 + 0)"
          using e2 scan_effect_sleep by (rule scan_effect_trans)
        ultimately show ?thesis
          using scan_effect_trans by blast
      next
        case False
        with assms bad e2 show ?thesis
          by (auto simp add: Resolved scanLoop_failed)
      qed
    next
      case good: True
      show ?thesis
      proof (cases "items response = None \<or> items response = Some []")
        case True
        with assms good show ?thesis
          using scan_effect_refl [of ?s1] by (auto simp add: Resolved scanLoop_exhausted)
      next
        case False
        then obtain its where its: "items response = Some its" "its \<noteq> []"
          by (cases "items response") auto
        let ?c1 = "fst (processItems its maxRepos scannedCount ?s1)"
        let ?s2 = "snd (processItems its maxRepos scannedCount ?s1)"
        have "scanLoop language maxRepos w (page + 1) ?c1 ?s2 = Some (w', c', s')"
          using assms(2) by (simp only: Resolved scanLoop_page [OF assms(1) good its])
        then have "scan_effect ?s2 s' (c' - ?c1)"
          using scanLoop_effect by blast
        moreover have "scan_effect ?s1 ?s2 (?c1 - scannedCount)"
          using processItems_effect [of ?s1 its maxRepos scannedCount] by blast
        ultimately show ?thesis
          using scan_effect_trans by blast
      qed
    qed
  qed
  then show ?thesis
    using later ev by auto
qed

lemma waitTime_absent: "waitTime None now = Some 60000"
  by (simp add: waitTime_def)

lemma waitTime_reset:
  "parseInt h = Some reset \<Longrightarrow> waitTime (Some h) now = Some (reset * 1000 - now)"
  by (auto simp add: waitTime_def parseInt_def Let_def)

text \<open>
  Claim C4. When the answer to a page request has status 403 and the quota is not yet
  met, the loop pauses and continues at the same page with the same count: the pause is
  60000 ms when the header \<open>x-ratelimit-reset\<close> is absent, and it ends at the reset
  instant (the header's seconds, in milliseconds) when the header holds a number. If
  the script has a further answer, the next request after the pause is the same page of
  the same language.
\<close>

theorem throttle_retries_same_page:
  assumes "scannedCount < maxRepos" and "status response = 403"
  shows "scanLoop language maxRepos (Resolved response # w) page scannedCount s
           = scanLoop language maxRepos w page scannedCount
               (sleep (waitTime (x_ratelimit_reset response) (date_now response))
                  (emit (ErrorLog ''GitHub API error'')
                     (emit (SearchRequest language page) s)))
       \<and> (x_ratelimit_reset response = None \<longrightarrow>
            waitTime (x_ratelimit_reset response) (date_now response) = Some 60000)
       \<and> (\<forall>h reset. x_ratelimit_reset response = Some h \<and> parseInt h = Some reset \<longrightarrow>
            (\<exists>ms. waitTime (x_ratelimit_reset response) (date_now response) = Some ms
                 \<and> date_now response + ms = reset * 1000))
       \<and> (\<forall>r w0 w' c' s'.
            w = r # w0 \<and>
            scanLoop language maxRepos (Resolved response # w) page scannedCount s
              = Some (w', c', s') \<longrightarrow>
            prefix
              (events s @
                 [SearchRequest language page,
                  ErrorLog ''GitHub API error'',
                  Sleep (waitTime (x_ratelimit_reset response) (date_now response)),
                  SearchRequest language page])
              (events s'))"
proof -
  let ?s3 = "sleep (waitTime (x_ratelimit_reset response) (date_now response))
     (emit (ErrorLog ''GitHub API error'') (emit (SearchRequest language page) s))"
  have step: "scanLoop language maxRepos (Resolved response # w) page scannedCount s
     = scanLoop language maxRepos w page scannedCount ?s3"
    by (rule scanLoop_throttled [OF assms])
  have ev: "events ?s3 = events s @
     [SearchRequest language page, ErrorLog ''GitHub API error'',
      Sleep (waitTime (x_ratelimit_reset response) (date_now response))]"
    by (simp add: sleep_def emit_def)
  have again: "prefix (events ?s3 @ [SearchRequest language page]) (events s')"
    if "scanLoop language maxRepos (r # w0) page scannedCount ?s3 = Some (w', c', s')"
    for r w0 w' c' s'
    using scanLoop_after_request [OF assms(1) that] .
  have retry: "\<forall>r w0 w' c' s'.
            w = r # w0 \<and>
            scanLoop language maxRepos (Resolved response # w) page scannedCount s
              = Some (w', c', s') \<longrightarrow>
            prefix
              (events s @
                 [SearchRequest language page,
                  ErrorLog ''GitHub API error'',
                  Sleep (waitTime (x_ratelimit_reset response) (date_now response)),
                  SearchRequest language page])
              (events s')"
    unfolding step using again by (auto simp add: ev)
  have wait: "\<forall>h reset. x_ratelimit_reset response = Some h \<and> parseInt h = Some reset \<longrightarrow>
            (\<exists>ms. waitTime (x_ratelimit_reset response) (date_now response) = Some ms
                 \<and> date_now response + ms = reset * 1000)"
    by (auto simp add: waitTime_reset)
  show ?thesis
    using step retry wait by (simp add: waitTime_absent)
qed


lemma parseInt_sample: "parseInt ''1700000002'' = Some 1700000002"
  by code_simp

theorem throttle_retries_same_page_witness:
  "(0::nat) < 1
   \<and> status \<lparr> status = 403, x_ratelimit_reset = Some ''1700000002'',
               date_now = 1700000000000, items = None \<rparr> = 403
   \<and> waitTime (Some ''1700000002'') 1700000000000 = Some 2000
   \<and> (\<exists>w' c' s'.
        scanLoop ''Go'' 1 [throttled (Some ''1700000002'') 1700000000000,
                           page_with [sample_item None]] 3 0 idle_scanner
          = Some (w', c', s')
        \<and> prefix [SearchRequest ''Go'' 3, ErrorLog ''GitHub API error'',
                   Sleep (Some 2000), SearchRequest ''Go'' 3] (events s'))"
proof -
  let ?response = "\<lparr> status = 403, x_ratelimit_reset = Some ''1700000002'',
                      date_now = 1700000000000, items = None \<rparr>"
  let ?w = "[page_with [sample_item None]]"
  have quota: "(0::nat) < 1"
    by simp
  have st: "status ?response = 403"
    by simp
  have wt: "waitTime (Some ''1700000002'') 1700000000000 = Some 2000"
    by (simp add: waitTime_reset [OF parseInt_sample])
  note inst = throttle_retries_same_page [OF quota st, of "''Go''" ?w 3 idle_scanner]
  have step: "scanLoop ''Go'' 1 (Resolved ?response # ?w) 3 0 idle_scanner
      = scanLoop ''Go'' 1 ?w 3 0
          (sleep (Some 2000)
             (emit (ErrorLog ''GitHub API error'') (emit (SearchRequest ''Go'' 3) idle_scanner)))"
    using inst by (simp add: wt)
  let ?s3 = "sleep (Some 2000)
     (emit (ErrorLog ''GitHub API error'') (emit (SearchRequest ''Go'' 3) idle_scanner))"
  let ?p = "processItems [sample_item None] 1 0 (emit (SearchRequest ''Go'' 3) ?s3)"
  have page: "scanLoop ''Go'' 1 ?w 3 0 ?s3 = scanLoop ''Go'' 1 [] (3 + 1) (fst ?p) (snd ?p)"
    unfolding page_with_def
    by (rule scanLoop_page) (simp_all add: ok_def)
  have "fst ?p = 1"
    by (simp add: processItems_count)
  then have fin: "scanLoop ''Go'' 1 [] (3 + 1) (fst ?p) (snd ?p) = Some ([], fst ?p, snd ?p)"
    by (simp add: scanLoop_done)
  have run: "scanLoop ''Go'' 1 (Resolved ?response # ?w) 3 0 idle_scanner
      = Some ([], fst ?p, snd ?p)"
    by (simp only: step page fin)
  have "prefix (events idle_scanner @
       [SearchRequest ''Go'' 3, ErrorLog ''GitHub API error'',
        Sleep (waitTime (x_ratelimit_reset ?response) (date_now ?response)),
        SearchRequest ''Go'' 3]) (events (snd ?p))"
    using inst run by blast
  then have "prefix [SearchRequest ''Go'' 3, ErrorLog ''GitHub API error'',
        Sleep (Some 2000), SearchRequest ''Go'' 3] (events (snd ?p))"
    by (simp add: wt idle_scanner_def)
  with run quota st wt show ?thesis
    unfolding throttled_def by blast
qed

text \<open>
  Claim C5. For an entry whose documentation request fails or finds nothing,
  \<open>processRepo\<close> leaves the project table as it is and records nothing but the
  request itself (no error), and the page loop still counts the entry: the local count
  and the lifetime counter go up by one, and the count a page yields is the same as
  when the entry has a document.
\<close>

theorem skipped_item_consumes_quota:
  assumes "item_readme it = None"
  shows "backend (processRepo it s) = backend s
       \<and> events (processRepo it s) = events s @ [ReadmeRequest (repo_full_name (item_repo it))]
       \<and> (scannedCount < maxRepos \<longrightarrow>
            processItems (it # its) maxRepos scannedCount s
              = processItems its maxRepos (scannedCount + 1)
                  (sleep (Some 500)
                     ((emit (ReadmeRequest (repo_full_name (item_repo it))) s)
                        \<lparr> totalScanned := totalScanned s + 1 \<rparr>))
            \<and> fst (processItems (it # its) maxRepos scannedCount s)
                = min maxRepos (scannedCount + 1 + length its)
            \<and> fst (processItems (it\<lparr> item_readme := Some readme \<rparr> # its) maxRepos scannedCount s)
                = fst (processItems (it # its) maxRepos scannedCount s))"
proof -
  have skip: "processRepo it s = emit (ReadmeRequest (repo_full_name (item_repo it))) s"
    using assms by (simp add: processRepo_skip)
  have a: "backend (processRepo it s) = backend s"
    by (simp add: skip emit_def)
  have b: "events (processRepo it s) = events s @ [ReadmeRequest (repo_full_name (item_repo it))]"
    by (simp add: skip emit_def)
  have c: "processItems (it # its) maxRepos scannedCount s
              = processItems its maxRepos (scannedCount + 1)
                  (sleep (Some 500)
                     ((emit (ReadmeRequest (repo_full_name (item_repo it))) s)
                        \<lparr> totalScanned := totalScanned s + 1 \<rparr>))"
    if "scannedCount < maxRepos"
    using processItems_step [OF that, of it its s] by (simp add: skip emit_def)
  have d: "fst (processItems (it # its) maxRepos scannedCount s)
        = min maxRepos (scannedCount + 1 + length its)"
    if "scannedCount < maxRepos"
    using that by (simp add: processItems_count)
  have e: "fst (processItems (it\<lparr> item_readme := Some readme \<rparr> # its) maxRepos scannedCount s)
        = fst (processItems (it # its) maxRepos scannedCount s)"
    by (simp only: processItems_count list.size)
  show ?thesis
    using a b c d e by blast
qed

theorem skipped_item_consumes_quota_witness:
  "item_readme (sample_item None) = None
   \<and> (0::nat) < 1
   \<and> backend (processRepo (sample_item None) idle_scanner) = empty_db
   \<and> events (processRepo (sample_item None) idle_scanner) = [ReadmeRequest ''acme/kit'']
   \<and> fst (processItems [sample_item None] 1 0 idle_scanner) = 1
   \<and> totalScanned (snd (processItems [sample_item None] 1 0 idle_scanner)) = 1
   \<and> backend (snd (processItems [sample_item None] 1 0 idle_scanner)) = empty_db"
proof -
  have absent: "item_readme (sample_item None) = None"
    by (simp add: sample_item_def)
  note inst = skipped_item_consumes_quota [OF absent, of idle_scanner 0 1 "[]"]
  have name: "repo_full_name (item_repo (sample_item None)) = ''acme/kit''"
    by (simp add: sample_item_def sample_repo_def)
  have a: "backend (processRepo (sample_item None) idle_scanner) = empty_db"
    using inst by (simp add: idle_scanner_def)
  have b: "events (processRepo (sample_item None) idle_scanner) = [ReadmeRequest ''acme/kit'']"
    using inst by (simp add: idle_scanner_def name)
  have run: "processItems [sample_item None] 1 0 idle_scanner
      = (1, sleep (Some 500)
              ((emit (ReadmeRequest ''acme/kit'') idle_scanner)
                 \<lparr> totalScanned := totalScanned idle_scanner + 1 \<rparr>))"
    using inst by (simp add: name processItems.simps)
  have c: "fst (processItems [sample_item None] 1 0 idle_scanner) = 1"
    by (simp only: run fst_conv)
  have d: "totalScanned (snd (processItems [sample_item None] 1 0 idle_scanner)) = 1"
    unfolding run by (simp add: sleep_def emit_def idle_scanner_def)
  have e: "backend (snd (processItems [sample_item None] 1 0 idle_scanner)) = empty_db"
    unfolding run by (simp add: sleep_def emit_def idle_scanner_def)
  show ?thesis
    using absent a b c d e by simp
qed

lemma scanLanguage_result:
  assumes "scanLanguage language maxRepos w s = Some (v, w', s')"
  shows "v = None \<and> (\<exists>c s1. c \<le> maxRepos \<and> scan_effect s s1 c
            \<and> s' = emit (LanguageDone language c) s1)"
proof -
  from assms obtain c s1 where loop: "scanLoop language maxRepos w 1 0 s = Some (w', c, s1)"
    and v: "v = None" and s': "s' = emit (LanguageDone language c) s1"
    by (auto simp add: scanLanguage_def split: option.splits)
  from scanLoop_effect [OF loop] have "scan_effect s s1 c" "c \<le> maxRepos"
    by simp_all
  with v s' show ?thesis by blast
qed

lemma run_effect_refl: "run_effect s s"
  by (simp add: run_effect_def)

lemma run_effect_trans: "run_effect s s' \<Longrightarrow> run_effect s' s'' \<Longrightarrow> run_effect s s''"
  by (auto simp add: run_effect_def)

lemma run_effect_language:
  "scan_effect s s1 c \<Longrightarrow> run_effect s (emit (LanguageDone language c) s1)"
  by (auto simp add: run_effect_def scan_effect_def emit_def attempts_append reported_append)

lemma run_effect_sleep: "run_effect s (sleep ms s)"
  by (simp add: run_effect_def sleep_def emit_def attempts_append reported_append)

lemma scanLanguages_step:
  "scanLanguages scanLanguage_call (language # languages) w s
     = (case scanLanguage language REPOS_PER_LANGUAGE w s of
          None \<Rightarrow> None
        | Some (v, w1, s1) \<Rightarrow>
            scanLanguages scanLanguage_call languages w1 (sleep (Some 5000) s1))"
  by (cases "scanLanguage language REPOS_PER_LANGUAGE w s") (auto simp add: scanLanguage_call_def)

lemma scanLanguages_effect:
  "scanLanguages scanLanguage_call languages w s = Some (res, w', s') \<Longrightarrow>
     res = Returns () \<and> run_effect s s'"
proof (induction languages arbitrary: w s)
  case Nil
  then show ?case by (simp add: run_effect_refl)
next
  case (Cons language languages)
  from Cons.prems obtain v w1 s1
    where one: "scanLanguage language REPOS_PER_LANGUAGE w s = Some (v, w1, s1)"
      and rest: "scanLanguages scanLanguage_call languages w1 (sleep (Some 5000) s1)
                   = Some (res, w', s')"
    by (auto simp add: scanLanguages_step simp del: scanLanguages.simps split: option.splits)
  from scanLanguage_result [OF one] have "run_effect s s1"
    using run_effect_language by blast
  then have "run_effect s (sleep (Some 5000) s1)"
    using run_effect_sleep run_effect_trans by blast
  with Cons.IH [OF rest] show ?case
    using run_effect_trans by blast
qed

lemma runScan_effect:
  assumes "runScan finished w s = Some (w', s')"
  shows "totalScanned s' + reported (events s) = totalScanned s + reported (events s')
       \<and> totalScanned s' + attempts (events s) = totalScanned s + attempts (events s')"
proof (cases "isScanning s")
  case True
  with assms show ?thesis
    by (simp add: runScan_def runScan_with_def)
next
  case False
  let ?s0 = "s\<lparr> isScanning := True \<rparr>"
  from assms False obtain res s2
    where all: "scanLanguages scanLanguage_call SCAN_LANGUAGES w ?s0 = Some (res, w', s2)"
      and s': "s' = s2\<lparr> lastScanTime := Some finished, isScanning := False \<rparr>
             \<or> (\<exists>e. res = Throws e)"
    by (auto simp add: runScan_def runScan_with_def split: option.splits completion.splits)
  from scanLanguages_effect [OF all] have res: "res = Returns ()" and eff: "run_effect ?s0 s2"
    by simp_all
  from s' res have "s' = s2\<lparr> lastScanTime := Some finished, isScanning := False \<rparr>"
    by auto
  with eff show ?thesis
    by (simp add: run_effect_def)
qed

lemma answers_Cons:
  "answers (r # w) = (if is_throttle r then answers w else answers w + 1)"
  by (simp add: answers_def)

lemma ok_not_throttle: "ok response \<Longrightarrow> status response \<noteq> 403"
  by (simp add: ok_def)

lemma scanLoop_returns:
  "maxRepos - scannedCount < answers w \<Longrightarrow>
     \<exists>w' c' s'. scanLoop language maxRepos w page scannedCount s = Some (w', c', s')
       \<and> answers w \<le> answers w' + (maxRepos - scannedCount) + 1"
proof (induction w arbitrary: page scannedCount s)
  case Nil
  then show ?case by (simp add: answers_def)
next
  case (Cons r w)
  show ?case
  proof (cases "scannedCount < maxRepos")
    case False
    then show ?thesis by (simp add: scanLoop_done)
  next
    case quota: True
    show ?thesis
    proof (cases r)
      case (Rejected msg)
      then show ?thesis
        by (simp add: scanLoop_rejected [OF quota] answers_Cons is_throttle_def)
    next
      case (Resolved response)
      show ?thesis
      proof (cases "status response = 403")
        case True
        then have "answers (r # w) = answers w"
          by (simp add: Resolved answers_Cons is_throttle_def)
        with Cons.prems Cons.IH show ?thesis
          by (simp add: Resolved scanLoop_throttled [OF quota True])
      next
        case other: False
        then have more: "answers (Resolved response # w) = answers w + 1"
          by (simp add: answers_Cons is_throttle_def)
        show ?thesis
        proof (cases "ok response")
          case False
          then show ?thesis
            by (simp add: Resolved scanLoop_failed [OF quota False other] more)
        next
          case good: True
          show ?thesis
          proof (cases "items response = None \<or> items response = Some []")
            case True
            then show ?thesis
              by (simp add: Resolved scanLoop_exhausted [OF quota good True] more)
          next
            case False
            then obtain its where its: "items response = Some its" "its \<noteq> []"
              by (cases "items response") auto
            let ?s1 = "emit (SearchRequest language page) s"
            let ?c1 = "fst (processItems its maxRepos scannedCount ?s1)"
            let ?s2 = "snd (processItems its maxRepos scannedCount ?s1)"
            have c1: "scannedCount < ?c1" "?c1 \<le> maxRepos"
              using quota its(2) by (simp_all add: processItems_count Suc_le_eq)
            have "maxRepos - ?c1 < answers w"
              using Cons.prems c1 quota by (simp add: Resolved more)
            from Cons.IH [OF this, of "page + 1" ?s2]
            obtain w' c' s' where
              run: "scanLoop language maxRepos w (page + 1) ?c1 ?s2 = Some (w', c', s')"
              and left: "answers w \<le> answers w' + (maxRepos - ?c1) + 1"
              by blast
            have "answers (r # w) \<le> answers w' + (maxRepos - scannedCount) + 1"
              using left c1 by (simp add: Resolved more)
            with run show ?thesis
              by (simp add: Resolved scanLoop_page [OF quota good its])
          qed
        qed
      qed
    qed
  qed
qed

lemma scanLanguage_returns:
  assumes "maxRepos < answers w"
  shows "\<exists>w' s'. scanLanguage language maxRepos w s = Some (None, w', s')
           \<and> answers w \<le> answers w' + maxRepos + 1"
proof -
  from assms have "maxRepos - 0 < answers w" by simp
  from scanLoop_returns [OF this, of language 1 s] show ?thesis
    by (auto simp add: scanLanguage_def)
qed

lemma scanLanguages_returns:
  "length languages * (REPOS_PER_LANGUAGE + 1) \<le> answers w \<Longrightarrow>
     \<exists>w' s'. scanLanguages scanLanguage_call languages w s = Some (Returns (), w', s')"
proof (induction languages arbitrary: w s)
  case Nil
  then show ?case by simp
next
  case (Cons language languages)
  then have "REPOS_PER_LANGUAGE < answers w"
    by simp
  from scanLanguage_returns [OF this, of language s]
  obtain w1 s1 where one: "scanLanguage language REPOS_PER_LANGUAGE w s = Some (None, w1, s1)"
    and left: "answers w \<le> answers w1 + REPOS_PER_LANGUAGE + 1"
    by blast
  from Cons.prems left have "length languages * (REPOS_PER_LANGUAGE + 1) \<le> answers w1"
    by simp
  from Cons.IH [OF this, of "sleep (Some 5000) s1"] one show ?case
    by (simp add: scanLanguages_step del: scanLanguages.simps)
qed

lemma runScan_returns:
  assumes "3005 \<le> answers w"
  shows "\<exists>w' s'. runScan finished w s = Some (w', s')"
proof (cases "isScanning s")
  case True
  then show ?thesis by (simp add: runScan_def runScan_with_def)
next
  case False
  have "length SCAN_LANGUAGES * (REPOS_PER_LANGUAGE + 1) \<le> answers w"
    using assms by (simp add: SCAN_LANGUAGES_def REPOS_PER_LANGUAGE_def)
  from scanLanguages_returns [OF this, of "s\<lparr> isScanning := True \<rparr>"] False show ?thesis
    by (auto simp add: runScan_def runScan_with_def)
qed




lemma scanLanguage_one_page:
  assumes "0 < maxRepos" and "maxRepos \<le> length its"
  shows "scanLanguage language maxRepos [page_with its] s
     = Some (None, [],
         emit (LanguageDone language maxRepos)
           (snd (processItems its maxRepos 0 (emit (SearchRequest language 1) s))))"
proof -
  let ?p = "processItems its maxRepos 0 (emit (SearchRequest language 1) s)"
  from assms have its: "its \<noteq> []"
    by auto
  have "scanLoop language maxRepos [page_with its] 1 0 s
      = scanLoop language maxRepos [] (1 + 1) (fst ?p) (snd ?p)"
    unfolding page_with_def
    by (rule scanLoop_page) (simp_all add: assms(1) ok_def its)
  moreover have c: "fst ?p = maxRepos"
    using assms by (simp add: processItems_count)
  ultimately have "scanLoop language maxRepos [page_with its] 1 0 s = Some ([], maxRepos, snd ?p)"
    by (simp add: scanLoop_done)
  then show ?thesis
    by (simp add: scanLanguage_def)
qed

text \<open>
  A language scan over one page with one entry, whose documentation request finds
  nothing: one enrichment attempt is made and counted, and the call resolves to
  \<open>undefined\<close>, not to the count.
\<close>

theorem scanLanguage_return_value_counterexample:
  "scanLanguage ''Go'' 1 [page_with [sample_item None]] idle_scanner
     = Some (None, [],
         \<lparr> isScanning = False, lastScanTime = None, totalScanned = 1, backend = empty_db,
           events = [SearchRequest ''Go'' 1, ReadmeRequest ''acme/kit'', Sleep (Some 500),
                     LanguageDone ''Go'' 1] \<rparr>)
   \<and> attempts [SearchRequest ''Go'' 1, ReadmeRequest ''acme/kit'', Sleep (Some 500),
                LanguageDone ''Go'' 1] = 1
   \<and> (None :: nat option) \<noteq> Some 1"
proof -
  have "processItems [sample_item None] 1 0 (emit (SearchRequest ''Go'' 1) idle_scanner)
      = (1, \<lparr> isScanning = False, lastScanTime = None, totalScanned = 1, backend = empty_db,
              events = [SearchRequest ''Go'' 1, ReadmeRequest ''acme/kit'', Sleep (Some 500)] \<rparr>)"
    by (simp add: processItems.simps processRepo_def sample_item_def sample_repo_def emit_def
        sleep_def idle_scanner_def Let_def)
  then show ?thesis
    by (simp add: scanLanguage_one_page emit_def)
qed

text \<open>
  Claim C9, as amended. \<open>scanLanguage\<close> returns no value. It raises the lifetime
  counter \<open>totalScanned\<close> by the number of enrichment attempts it made (stored or
  not), which is at most the quota and is the count its closing line reports; a scan run
  therefore raises \<open>totalScanned\<close> by the sum of the counts its language scans report.
  A language scan returns whenever the script holds more answers that are not
  status 403 than the quota.
\<close>

theorem scan_counts_attempts:
  "(scanLanguage language maxRepos w s = Some (v, w', s') \<longrightarrow>
      v = None
      \<and> totalScanned s \<le> totalScanned s'
      \<and> totalScanned s' - totalScanned s \<le> maxRepos
      \<and> attempts (events s') = attempts (events s) + (totalScanned s' - totalScanned s)
      \<and> events s' \<noteq> []
      \<and> last (events s') = LanguageDone language (totalScanned s' - totalScanned s))
   \<and> (runScan finished w s = Some (w', s') \<longrightarrow>
      totalScanned s' + reported (events s) = totalScanned s + reported (events s')
      \<and> totalScanned s' + attempts (events s) = totalScanned s + attempts (events s'))
   \<and> (maxRepos < answers w \<longrightarrow>
      (\<exists>w1 s1. scanLanguage language maxRepos w s = Some (None, w1, s1)))"
proof -
  have one: "v = None
      \<and> totalScanned s \<le> totalScanned s'
      \<and> totalScanned s' - totalScanned s \<le> maxRepos
      \<and> attempts (events s') = attempts (events s) + (totalScanned s' - totalScanned s)
      \<and> events s' \<noteq> []
      \<and> last (events s') = LanguageDone language (totalScanned s' - totalScanned s)"
    if "scanLanguage language maxRepos w s = Some (v, w', s')"
  proof -
    from scanLanguage_result [OF that] obtain c s1
      where v: "v = None" and c: "c \<le> maxRepos" and eff: "scan_effect s s1 c"
        and s': "s' = emit (LanguageDone language c) s1"
      by blast
    have total: "totalScanned s' = totalScanned s + c"
      using eff by (simp add: s' emit_def scan_effect_def)
    have att: "attempts (events s') = attempts (events s) + c"
      using eff by (simp add: s' emit_def scan_effect_def attempts_append)
    have lst: "events s' \<noteq> [] \<and> last (events s') = LanguageDone language c"
      by (simp add: s' emit_def)
    show ?thesis
      using v c lst by (simp add: total att)
  qed
  have run: "runScan finished w s = Some (w', s') \<longrightarrow>
      totalScanned s' + reported (events s) = totalScanned s + reported (events s')
      \<and> totalScanned s' + attempts (events s) = totalScanned s + attempts (events s')"
    using runScan_effect by blast
  have ret: "maxRepos < answers w \<longrightarrow>
      (\<exists>w1 s1. scanLanguage language maxRepos w s = Some (None, w1, s1))"
    using scanLanguage_returns [of maxRepos w language s] by blast
  show ?thesis
    using one run ret by blast
qed

lemma processRepo_stores:
  "item_readme it = Some readme \<Longrightarrow> readme \<noteq> [] \<Longrightarrow>
     backend (processRepo it s)
       = snd (saveProject (item_clock it) (projectData_of (item_repo it) readme) (backend s))"
  by (simp add: processRepo_def Let_def emit_def split: prod.splits save_result.splits)

lemma backend_emit: "backend (emit e s) = backend s"
  by (simp add: emit_def)

lemma backend_two_items:
  "backend (snd (processItems [sample_item None, sample_item (Some ''REST API client'')] 2 0
       (emit (SearchRequest ''Go'' 1) idle_scanner))) = db_after_first"
proof -
  let ?s1 = "emit (SearchRequest ''Go'' 1) idle_scanner"
  let ?i1 = "sample_item None"
  let ?i2 = "sample_item (Some ''REST API client'')"
  let ?t1 = "sleep (Some 500) ((processRepo ?i1 ?s1)\<lparr> totalScanned := totalScanned (processRepo ?i1 ?s1) + 1 \<rparr>)"
  let ?t2 = "sleep (Some 500) ((processRepo ?i2 ?t1)\<lparr> totalScanned := totalScanned (processRepo ?i2 ?t1) + 1 \<rparr>)"
  have "processItems [?i1, ?i2] 2 0 ?s1 = processItems [?i2] 2 (0 + 1) ?t1"
    by (rule processItems_step) simp
  also have "\<dots> = processItems [] 2 (0 + 1 + 1) ?t2"
    by (rule processItems_step) simp
  also have "\<dots> = (2, ?t2)"
    by (simp add: processItems.simps)
  finally have run: "processItems [?i1, ?i2] 2 0 ?s1 = (2, ?t2)" .
  have b1: "backend ?t1 = empty_db"
    by (simp add: sleep_def emit_def processRepo_skip sample_item_def idle_scanner_def)
  have "backend ?t2 = backend (processRepo ?i2 ?t1)"
    by (simp add: sleep_def emit_def)
  also have "\<dots> = snd (saveProject 100 (projectData_of sample_repo ''REST API client'') (backend ?t1))"
    using processRepo_stores [of ?i2 "''REST API client''" ?t1] by (simp add: sample_item_def)
  also have "\<dots> = db_after_first"
    by (simp only: b1 db_after_first_def first_scan_def)
  finally show ?thesis
    by (simp only: run snd_conv)
qed

theorem scan_counts_attempts_witness:
  "(\<exists>w' s'. scanLanguage ''Go'' 2
        [page_with [sample_item None, sample_item (Some ''REST API client'')]] idle_scanner
        = Some (None, w', s')
      \<and> totalScanned s' = 2
      \<and> attempts (events s') = 2
      \<and> last (events s') = LanguageDone ''Go'' 2
      \<and> length (rows (backend s')) = 1)
   \<and> (\<exists>w' s'. runScan 0 (replicate 3005 (Rejected ''offline'')) idle_scanner = Some (w', s')
      \<and> totalScanned s' = reported (events s')
      \<and> totalScanned s' = attempts (events s'))
   \<and> 2 < answers (replicate 3 (Rejected ''offline''))
   \<and> (\<exists>w' s'. scanLanguage ''Go'' 2 (replicate 3 (Rejected ''offline'')) idle_scanner
        = Some (None, w', s'))"
proof -
  let ?w = "[page_with [sample_item None, sample_item (Some ''REST API client'')]]"
  let ?p = "processItems [sample_item None, sample_item (Some ''REST API client'')] 2 0
     (emit (SearchRequest ''Go'' 1) idle_scanner)"
  let ?s' = "emit (LanguageDone ''Go'' 2) (snd ?p)"
  have zero: "totalScanned idle_scanner = 0" "events idle_scanner = []"
    by (simp_all add: idle_scanner_def)
  have run: "scanLanguage ''Go'' 2 ?w idle_scanner = Some (None, [], ?s')"
    by (rule scanLanguage_one_page) simp_all
  have lst: "last (events ?s') = LanguageDone ''Go'' 2"
    by (simp add: emit_def)
  have stored: "length (rows (backend ?s')) = 1"
    by (simp only: backend_emit backend_two_items rows_after_first) simp
  from scan_counts_attempts [where language = "''Go''" and maxRepos = 2 and w = ?w
      and s = idle_scanner and v = None and w' = "[]" and s' = ?s'] run
  have "attempts (events ?s') = attempts (events idle_scanner) + (totalScanned ?s' - totalScanned idle_scanner)"
    and "last (events ?s') = LanguageDone ''Go'' (totalScanned ?s' - totalScanned idle_scanner)"
    by blast+
  with lst have "totalScanned ?s' = 2" "attempts (events ?s') = 2"
    by (simp_all add: zero)
  with run lst stored have a: "\<exists>w' s'. scanLanguage ''Go'' 2 ?w idle_scanner = Some (None, w', s')
      \<and> totalScanned s' = 2 \<and> attempts (events s') = 2
      \<and> last (events s') = LanguageDone ''Go'' 2 \<and> length (rows (backend s')) = 1"
    by blast
  let ?offline = "replicate 3005 (Rejected ''offline'')"
  have "3005 \<le> answers ?offline"
    by (simp add: answers_def is_throttle_def)
  from runScan_returns [OF this, of 0 idle_scanner]
  obtain w1 s1 where whole: "runScan 0 ?offline idle_scanner = Some (w1, s1)"
    by blast
  from scan_counts_attempts [where finished = 0 and w = ?offline and s = idle_scanner
      and w' = w1 and s' = s1] whole
  have "totalScanned s1 + reported (events idle_scanner)
        = totalScanned idle_scanner + reported (events s1)"
    and "totalScanned s1 + attempts (events idle_scanner)
        = totalScanned idle_scanner + attempts (events s1)"
    by blast+
  then have "totalScanned s1 = reported (events s1)" "totalScanned s1 = attempts (events s1)"
    by (simp_all add: zero)
  with whole have b: "\<exists>w' s'. runScan 0 ?offline idle_scanner = Some (w', s')
      \<and> totalScanned s' = reported (events s') \<and> totalScanned s' = attempts (events s')"
    by blast
  have enough: "2 < answers (replicate 3 (Rejected ''offline''))"
    by (simp add: answers_def is_throttle_def)
  have c: "\<exists>w' s'. scanLanguage ''Go'' 2 (replicate 3 (Rejected ''offline'')) idle_scanner
        = Some (None, w', s')"
    using scan_counts_attempts [where language = "''Go''" and maxRepos = 2
        and w = "replicate 3 (Rejected ''offline'')" and s = idle_scanner] enough
    by blast
  show ?thesis
    using a b enough c by blast
qed

end
